theory Spec2Isabelle
  imports Main "HOL-Library.Multiset" "HOL-Library.Char_ord" "HOL-Library.List_Lexorder"
    "HOL-Library.Sublist"
begin

section \<open>Strings of the server\<close>

text \<open>
  A JavaScript string is modelled as a \<^typ>\<open>string\<close> whose characters are the code units
  0 to 255 (Latin-1). \<open>String.prototype.trim\<close> strips white space and line terminators
  at both ends; in this range they are TAB, LF, VT, FF, CR, SPACE and NBSP.
  \<open>String.prototype.toLowerCase\<close> maps A to Z and the Latin-1 capitals
  (0xC0 to 0xDE without 0xD7) to the letter 32 places further.
\<close>

definition is_space :: "char \<Rightarrow> bool" where
  "is_space c = (of_char c \<in> {9, 10, 11, 12, 13, 32, 160 :: nat})"

definition trim :: "string \<Rightarrow> string" where
  "trim s = rev (dropWhile is_space (rev (dropWhile is_space s)))"

definition to_lower :: "char \<Rightarrow> char" where
  "to_lower c =
     (let n = (of_char c :: nat)
      in if (65 \<le> n \<and> n \<le> 90) \<or> (192 \<le> n \<and> n \<le> 222 \<and> n \<noteq> 215)
         then char_of (n + 32) else c)"

definition toLowerCase :: "string \<Rightarrow> string" where
  "toLowerCase s = map to_lower s"

definition is_digit :: "char \<Rightarrow> bool" where
  "is_digit c = (CHR ''0'' \<le> c \<and> c \<le> CHR ''9'')"

section \<open>Regular expressions\<close>

text \<open>
  The server uses three regular expressions: the email pattern and the phone pattern of
  the schema, both tested by the JavaScript engine, and the search pattern, compiled by
  \<open>new RegExp(search, 'i')\<close> and matched by the store. The fragment modelled here has
  single characters, the dot, and \<open>+\<close> on one of them. \<open>AnyBut ts\<close> is the dot of an
  engine whose line terminators are \<open>ts\<close>.
\<close>

datatype atom = Lit char | AnyBut "char list"

datatype item = One atom | Plus atom

fun atom_ok :: "bool \<Rightarrow> atom \<Rightarrow> char \<Rightarrow> bool" where
  "atom_ok ci (Lit c) d = (if ci then to_lower c = to_lower d else c = d)"
| "atom_ok ci (AnyBut ts) d = (d \<notin> set ts)"

text \<open>\<open>match_here ci r s\<close>: the items \<open>r\<close> match a prefix of \<open>s\<close>.\<close>

fun match_here :: "bool \<Rightarrow> item list \<Rightarrow> string \<Rightarrow> bool" where
  "match_here ci [] s = True"
| "match_here ci (One a # r) [] = False"
| "match_here ci (One a # r) (c # s) = (atom_ok ci a c \<and> match_here ci r s)"
| "match_here ci (Plus a # r) [] = False"
| "match_here ci (Plus a # r) (c # s) =
     (atom_ok ci a c \<and> (match_here ci (Plus a # r) s \<or> match_here ci r s))"

text \<open>\<open>RegExp.prototype.test\<close> of a pattern without anchors: a match may start anywhere.\<close>

fun regexp_test :: "bool \<Rightarrow> item list \<Rightarrow> string \<Rightarrow> bool" where
  "regexp_test ci r [] = match_here ci r []"
| "regexp_test ci r (c # s) = (match_here ci r (c # s) \<or> regexp_test ci r s)"

text \<open>The dot of JavaScript does not match LF or CR; the dot of the store's engine (PCRE)
  does not match LF.\<close>

definition js_dot :: atom where
  "js_dot = AnyBut [CHR 0x0A, CHR 0x0D]"

definition pcre_dot :: atom where
  "pcre_dot = AnyBut [CHR 0x0A]"

text \<open>The schema's email pattern \<^verbatim>\<open>/.+\@.+\..+/\<close>.\<close>

definition email_regexp :: "item list" where
  "email_regexp = [Plus js_dot, One (Lit CHR ''@''), Plus js_dot, One (Lit CHR ''.''), Plus js_dot]"

text \<open>The schema's phone validator \<^verbatim>\<open>/^\d{10}$/.test(v)\<close>: the whole value is ten digits.\<close>

definition phone_validator :: "string \<Rightarrow> bool" where
  "phone_validator v = (length v = 10 \<and> list_all is_digit v)"

text \<open>
  \<open>new RegExp(search, 'i')\<close>. The characters with a meaning in a pattern are
  \<^verbatim>\<open>\ ^ $ . * + ? ( ) [ ] { } |\<close>. Modelled: any other character stands for itself, the
  dot, a backslash before one of these characters (or before \<^verbatim>\<open>/\<close>) makes it literal;
  a backslash at the end and a quantifier at the start are syntax errors, which the
  constructor throws. Every other pattern is outside the fragment: \<open>Unmodelled\<close>.
\<close>

definition syntax_char :: "char \<Rightarrow> bool" where
  "syntax_char c = (c \<in> set (CHR 0x5C # ''^$.*+?()[]{}|''))"

datatype 'a compiled = Compiled 'a | SyntaxError | Unmodelled

fun parse_items :: "string \<Rightarrow> item list compiled" where
  "parse_items [] = Compiled []"
| "parse_items (c # cs) =
     (if c = CHR 0x5C then
        (case cs of
           [] \<Rightarrow> SyntaxError
         | d # ds \<Rightarrow>
             if syntax_char d \<or> d = CHR ''/'' then
               (case parse_items ds of Compiled r \<Rightarrow> Compiled (One (Lit d) # r) | e \<Rightarrow> e)
             else Unmodelled)
      else if c = CHR ''.'' then
        (case parse_items cs of Compiled r \<Rightarrow> Compiled (One pcre_dot # r) | e \<Rightarrow> e)
      else if syntax_char c then Unmodelled
      else (case parse_items cs of Compiled r \<Rightarrow> Compiled (One (Lit c) # r) | e \<Rightarrow> e))"

definition new_RegExp :: "string \<Rightarrow> item list compiled" where
  "new_RegExp pat =
     (case pat of
        c # cs \<Rightarrow> if c \<in> set ''*+?'' then SyntaxError else parse_items pat
      | [] \<Rightarrow> parse_items pat)"

section \<open>The Contact model\<close>

text \<open>
  A document of the collection. \<open>cid\<close> is the ObjectId, a 96-bit number written as 24
  hexadecimal digits; \<open>createdAt\<close> and \<open>updatedAt\<close> are the timestamps the schema option
  \<open>timestamps: true\<close> adds.
\<close>

record contact =
  cid :: nat
  name :: string
  email :: string
  phone :: string
  createdAt :: nat
  updatedAt :: nat

text \<open>
  The state: the collection in insertion order, and the counter from which the driver
  takes the next ObjectId (\<open>new Contact(...)\<close> takes one, whether or not the save
  succeeds).
\<close>

record server =
  contacts :: "contact list"
  oid_counter :: nat

definition initial :: server where
  "initial = \<lparr>contacts = [], oid_counter = 0\<rparr>"

text \<open>What a handler's \<open>catch\<close> block can receive.\<close>

datatype error =
    ValidationError "(string \<times> string) list"
  | DuplicateKey
  | CastError string
  | RegExpError string

subsection \<open>Casting a path parameter to an ObjectId\<close>

text \<open>
  The path parameter \<open>:id\<close> is a string. The cast accepts a string of 24 hexadecimal
  digits and fails on every other string (drivers that also accept a string of 12 bytes
  are not modelled); a failure is thrown as a cast error.
\<close>

definition hex_val :: "char \<Rightarrow> nat option" where
  "hex_val c =
     (if CHR ''0'' \<le> c \<and> c \<le> CHR ''9'' then Some (of_char c - 48)
      else if CHR ''a'' \<le> c \<and> c \<le> CHR ''f'' then Some (of_char c - 87)
      else if CHR ''A'' \<le> c \<and> c \<le> CHR ''F'' then Some (of_char c - 55)
      else None)"

fun hex_num :: "nat \<Rightarrow> string \<Rightarrow> nat option" where
  "hex_num acc [] = Some acc"
| "hex_num acc (c # cs) =
     (case hex_val c of None \<Rightarrow> None | Some d \<Rightarrow> hex_num (16 * acc + d) cs)"

definition cast_ObjectId :: "string \<Rightarrow> nat option" where
  "cast_ObjectId s = (if length s = 24 then hex_num 0 s else None)"

subsection \<open>The schema: setters and validators\<close>

text \<open>
  \<open>trim: true\<close> on the three paths, \<open>lowercase: true\<close> on \<open>email\<close>. A path reports the
  first validator that fails: \<open>required\<close> (the value is the empty string), then
  \<open>match\<close> or \<open>validate\<close>.
\<close>

definition set_name :: "string \<Rightarrow> string" where
  "set_name v = trim v"

definition set_email :: "string \<Rightarrow> string" where
  "set_email v = trim (toLowerCase v)"

definition set_phone :: "string \<Rightarrow> string" where
  "set_phone v = trim v"

definition validate_name :: "string \<Rightarrow> (string \<times> string) list" where
  "validate_name v = (if v = [] then [(''name'', ''Name is required.'')] else [])"

definition validate_email :: "string \<Rightarrow> (string \<times> string) list" where
  "validate_email v =
     (if v = [] then [(''email'', ''Email is required.'')]
      else if \<not> regexp_test False email_regexp v
        then [(''email'', ''Please enter a valid email address.'')]
      else [])"

definition validate_phone :: "string \<Rightarrow> (string \<times> string) list" where
  "validate_phone v =
     (if v = [] then [(''phone'', ''Phone number is required.'')]
      else if \<not> phone_validator v
        then [(''phone'', v @ '' is not a valid 10-digit phone number!'')]
      else [])"

definition validate :: "string \<Rightarrow> string \<Rightarrow> string \<Rightarrow> (string \<times> string) list" where
  "validate n e p = validate_name n @ validate_email e @ validate_phone p"

subsection \<open>Store operations\<close>

text \<open>The unique index on \<open>phone\<close>: an insert of a value already there fails with code 11000.\<close>

definition insert_doc :: "contact \<Rightarrow> contact list \<Rightarrow> error + contact list" where
  "insert_doc d cs = (if phone d \<in> set (map phone cs) then Inl DuplicateKey else Inr (cs @ [d]))"

text \<open>\<open>newContact.save()\<close>: validation, then the insert; the timestamps are the time of the save.\<close>

definition save :: "contact \<Rightarrow> nat \<Rightarrow> contact list \<Rightarrow> error + contact \<times> contact list" where
  "save d now cs =
     (let errs = validate (name d) (email d) (phone d)
      in if errs \<noteq> [] then Inl (ValidationError errs)
         else (let d' = d\<lparr>createdAt := now, updatedAt := now\<rparr>
               in case insert_doc d' cs of Inl e \<Rightarrow> Inl e | Inr cs' \<Rightarrow> Inr (d', cs')))"

fun replace_first :: "('a \<Rightarrow> bool) \<Rightarrow> 'a \<Rightarrow> 'a list \<Rightarrow> 'a list" where
  "replace_first P y [] = []"
| "replace_first P y (x # xs) = (if P x then y # xs else x # replace_first P y xs)"

fun remove_first :: "('a \<Rightarrow> bool) \<Rightarrow> 'a list \<Rightarrow> 'a list" where
  "remove_first P [] = []"
| "remove_first P (x # xs) = (if P x then xs else x # remove_first P xs)"

text \<open>
  \<open>Contact.findByIdAndUpdate(id, {name, email, phone}, {new: true, runValidators: true})\<close>:
  the id is cast, the update is cast (the setters run) and validated, then the store
  finds the document, and writes it unless another document holds the phone.
  The result is \<open>null\<close> when no document has the id.
\<close>

definition findByIdAndUpdate ::
  "string \<Rightarrow> string \<Rightarrow> string \<Rightarrow> string \<Rightarrow> nat \<Rightarrow> contact list \<Rightarrow> error + contact option \<times> contact list" where
  "findByIdAndUpdate idp n e p now cs =
     (case cast_ObjectId idp of
        None \<Rightarrow> Inl (CastError idp)
      | Some i \<Rightarrow>
          (let n' = set_name n; e' = set_email e; p' = set_phone p; errs = validate n' e' p'
           in if errs \<noteq> [] then Inl (ValidationError errs)
              else (case find (\<lambda>d. cid d = i) cs of
                      None \<Rightarrow> Inr (None, cs)
                    | Some d \<Rightarrow>
                        if p' \<in> set (map phone (remove_first (\<lambda>d. cid d = i) cs))
                        then Inl DuplicateKey
                        else (let d' = d\<lparr>name := n', email := e', phone := p', updatedAt := now\<rparr>
                              in Inr (Some d', replace_first (\<lambda>d. cid d = i) d' cs)))))"

definition findByIdAndDelete :: "string \<Rightarrow> contact list \<Rightarrow> error + contact option \<times> contact list" where
  "findByIdAndDelete idp cs =
     (case cast_ObjectId idp of
        None \<Rightarrow> Inl (CastError idp)
      | Some i \<Rightarrow>
          (case find (\<lambda>d. cid d = i) cs of
             None \<Rightarrow> Inr (None, cs)
           | Some d \<Rightarrow> Inr (Some d, remove_first (\<lambda>d. cid d = i) cs)))"

text \<open>
  Modelled from the spec: the collation tables of the store (locale \<open>en\<close>, strength 2)
  are not in the repository. The spec: results are ordered by name ascending, using
  case-insensitive collation, so that "bob" and "Bob" interleave by letter, not by case
  or byte value. The key of a name is the name with its letters folded to one case;
  keys are compared character by character.
\<close>

definition collation_key :: "string \<Rightarrow> string" where
  "collation_key s = toLowerCase s"

text \<open>\<open>Contact.find(query).collation({locale: 'en', strength: 2}).sort({name: 1})\<close>, where
  the query is empty (\<open>None\<close>) or a condition on \<open>name\<close>, here the test of a regular
  expression.\<close>

definition find_sorted :: "(string \<Rightarrow> bool) option \<Rightarrow> contact list \<Rightarrow> contact list" where
  "find_sorted q cs =
     sort_key (\<lambda>d. collation_key (name d))
       (case q of None \<Rightarrow> cs | Some m \<Rightarrow> filter (\<lambda>d. m (name d)) cs)"

section \<open>The request handlers\<close>

datatype payload =
    Contacts "contact list"
  | Doc contact
  | Message string
  | MessageOf error
  | MessageError string error

record response =
  status :: nat
  body :: payload

definition respond :: "nat \<Rightarrow> payload \<Rightarrow> response" where
  "respond s b = \<lparr>status = s, body = b\<rparr>"

text \<open>The body of a create or update request: a field is absent or a string.\<close>

record fields =
  f_name :: "string option"
  f_email :: "string option"
  f_phone :: "string option"

text \<open>The test \<open>!v\<close> on an absent field or a string.\<close>

definition falsy :: "string option \<Rightarrow> bool" where
  "falsy v = (case v of None \<Rightarrow> True | Some s \<Rightarrow> s = [])"

subsection \<open>GET /api/contacts\<close>

text \<open>
  The query parameter \<open>search\<close> is absent or a string; \<open>if (search)\<close> holds for a non-empty
  string. The result is \<open>None\<close> where the search string is a pattern outside the modelled
  fragment of regular expressions; everywhere else it is the response.
\<close>

definition get_contacts :: "string option \<Rightarrow> server \<Rightarrow> response option" where
  "get_contacts search st =
     (case search of
        None \<Rightarrow> Some (respond 200 (Contacts (find_sorted None (contacts st))))
      | Some s \<Rightarrow>
          if s = [] then Some (respond 200 (Contacts (find_sorted None (contacts st))))
          else (case new_RegExp s of
                  Compiled r \<Rightarrow>
                    Some (respond 200 (Contacts (find_sorted (Some (regexp_test True r)) (contacts st))))
                | SyntaxError \<Rightarrow>
                    Some (respond 500 (MessageError ''Error fetching contacts'' (RegExpError s)))
                | Unmodelled \<Rightarrow> None))"

subsection \<open>POST /api/contacts\<close>

fun create_catch :: "error \<Rightarrow> response" where
  "create_catch (ValidationError es) = respond 400 (MessageOf (ValidationError es))"
| "create_catch DuplicateKey = respond 409 (Message ''This phone number is already registered.'')"
| "create_catch e = respond 500 (MessageError ''Error creating contact'' e)"

definition post_contacts :: "fields \<Rightarrow> nat \<Rightarrow> server \<Rightarrow> server \<times> response" where
  "post_contacts b now st =
     (if falsy (f_name b) \<or> falsy (f_email b) \<or> falsy (f_phone b)
      then (st, respond 400 (Message ''Name, email, and phone fields are required.''))
      else
        (let newContact = \<lparr>cid = oid_counter st, name = set_name (the (f_name b)),
                           email = set_email (the (f_email b)), phone = set_phone (the (f_phone b)),
                           createdAt = 0, updatedAt = 0\<rparr>;
             st1 = st\<lparr>oid_counter := Suc (oid_counter st)\<rparr>
         in case save newContact now (contacts st1) of
              Inr (d, cs) \<Rightarrow> (st1\<lparr>contacts := cs\<rparr>, respond 201 (Doc d))
            | Inl e \<Rightarrow> (st1, create_catch e)))"

subsection \<open>PUT /api/contacts/:id\<close>

fun update_catch :: "error \<Rightarrow> response" where
  "update_catch (ValidationError es) = respond 400 (MessageOf (ValidationError es))"
| "update_catch DuplicateKey = respond 409 (Message ''This phone number is already registered.'')"
| "update_catch e = respond 500 (MessageError ''Error updating contact'' e)"

definition put_contact :: "string \<Rightarrow> fields \<Rightarrow> nat \<Rightarrow> server \<Rightarrow> server \<times> response" where
  "put_contact idp b now st =
     (if falsy (f_name b) \<or> falsy (f_email b) \<or> falsy (f_phone b)
      then (st, respond 400 (Message ''Name, email, and phone are required.''))
      else
        (case findByIdAndUpdate idp (the (f_name b)) (the (f_email b)) (the (f_phone b)) now (contacts st) of
           Inr (None, cs) \<Rightarrow> (st, respond 404 (Message ''Contact not found''))
         | Inr (Some d, cs) \<Rightarrow> (st\<lparr>contacts := cs\<rparr>, respond 200 (Doc d))
         | Inl e \<Rightarrow> (st, update_catch e)))"

subsection \<open>DELETE /api/contacts/:id\<close>

definition delete_contact :: "string \<Rightarrow> server \<Rightarrow> server \<times> response" where
  "delete_contact idp st =
     (case findByIdAndDelete idp (contacts st) of
        Inr (None, cs) \<Rightarrow> (st, respond 404 (Message ''Contact not found''))
      | Inr (Some d, cs) \<Rightarrow> (st\<lparr>contacts := cs\<rparr>, respond 200 (Message ''Contact deleted successfully''))
      | Inl e \<Rightarrow> (st, respond 500 (MessageError ''Error deleting contact'' e)))"

subsection \<open>Reachable states\<close>

inductive reachable :: "server \<Rightarrow> bool" where
  start: "reachable initial"
| post: "reachable st \<Longrightarrow> reachable (fst (post_contacts b now st))"
| put: "reachable st \<Longrightarrow> reachable (fst (put_contact idp b now st))"
| delete: "reachable st \<Longrightarrow> reachable (fst (delete_contact idp st))"

section \<open>The specification's words\<close>

text \<open>
  Two notions of the specification, written as it words them, to be compared with what
  the code computes. \<open>contains_ci s nm\<close>: the name \<open>nm\<close> contains the search string \<open>s\<close> as
  a substring, case-insensitively. \<open>email_shape v\<close>: \<open>v\<close> has the full shape
  \<^verbatim>\<open><non-empty>@<non-empty>.<non-empty>\<close>.
\<close>

definition contains_ci :: "string \<Rightarrow> string \<Rightarrow> bool" where
  "contains_ci s nm = sublist (toLowerCase s) (toLowerCase nm)"

definition email_shape :: "string \<Rightarrow> bool" where
  "email_shape v = (\<exists>x y z. x \<noteq> [] \<and> y \<noteq> [] \<and> z \<noteq> [] \<and> v = x @ ''@'' @ y @ ''.'' @ z)"

section \<open>Facts about the store operations\<close>

lemma remove_first_keeps: "d \<in> set xs \<Longrightarrow> \<not> P d \<Longrightarrow> d \<in> set (remove_first P xs)"
  by (induction xs) auto

lemma find_None_cid: "i \<notin> cid ` set cs \<Longrightarrow> find (\<lambda>d. cid d = i) cs = None"
  by (induction cs) auto

lemma find_Some_cid: "i \<in> cid ` set cs \<Longrightarrow> \<exists>d. find (\<lambda>d. cid d = i) cs = Some d"
  by (induction cs) auto

lemma set_replace_first: "set (replace_first P y xs) \<subseteq> insert y (set xs)"
  by (induction xs) auto

lemma set_remove_first: "set (remove_first P xs) \<subseteq> set xs"
  by (induction xs) auto

lemma distinct_remove_first:
  "distinct (map f xs) \<Longrightarrow> distinct (map f (remove_first P xs))"
proof (induction xs)
  case Nil
  then show ?case by simp
next
  case (Cons x xs)
  then show ?case using set_remove_first [of P xs] by auto
qed

lemma distinct_replace_first:
  "distinct (map f xs) \<Longrightarrow> f y \<notin> f ` set (remove_first P xs) \<Longrightarrow>
   distinct (map f (replace_first P y xs))"
proof (induction xs)
  case Nil
  then show ?case by simp
next
  case (Cons x xs)
  show ?case
  proof (cases "P x")
    case True
    with Cons.prems show ?thesis by simp
  next
    case False
    have "f x \<notin> f ` set (replace_first P y xs)"
      using Cons.prems False set_replace_first [of P y xs] by auto
    with Cons False show ?thesis by simp
  qed
qed

lemma map_replace_first:
  "find P xs = Some x \<Longrightarrow> g y = g x \<Longrightarrow> map g (replace_first P y xs) = map g xs"
  by (induction xs) (auto split: if_splits)

lemma trim_Nil: "trim [] = []"
  by (simp add: trim_def)

lemma valid_present:
  "validate (set_name n) (set_email e) (set_phone p) = [] \<Longrightarrow> n \<noteq> [] \<and> e \<noteq> [] \<and> p \<noteq> []"
  by (auto simp: validate_def validate_name_def validate_email_def validate_phone_def
        set_name_def set_email_def set_phone_def toLowerCase_def trim_Nil split: if_splits)

text \<open>Unfolding sets for evaluating the model on concrete requests.\<close>

lemmas string_defs = trim_def is_space_def toLowerCase_def to_lower_def is_digit_def char_of_def bit_0

lemmas schema_defs = set_name_def set_email_def set_phone_def validate_def validate_name_def
  validate_email_def validate_phone_def email_regexp_def js_dot_def phone_validator_def

lemmas handler_defs = post_contacts_def put_contact_def delete_contact_def save_def insert_doc_def
  findByIdAndUpdate_def findByIdAndDelete_def falsy_def cast_ObjectId_def hex_val_def Let_def

section \<open>The presence check\<close>

text \<open>
  C5. A create or update request in which name, email or phone is missing or empty is
  answered with status 400 and the message that the fields are required. The check comes
  first: the answer is the same whatever the other fields, the id and the store are, and
  the state is the one before the request.
\<close>

theorem missing_field_rejected:
  assumes "f_name b \<in> {None, Some []} \<or> f_email b \<in> {None, Some []} \<or> f_phone b \<in> {None, Some []}"
  shows "post_contacts b now st = (st, respond 400 (Message ''Name, email, and phone fields are required.''))
       \<and> put_contact idp b now st = (st, respond 400 (Message ''Name, email, and phone are required.''))"
  using assms by (auto simp: post_contacts_def put_contact_def falsy_def)

theorem missing_field_rejected_witness:
  "post_contacts \<lparr>f_name = Some ''Bob'', f_email = None, f_phone = Some ''12345''\<rparr> 7 initial
     = (initial, respond 400 (Message ''Name, email, and phone fields are required.''))
   \<and> put_contact ''nowhere'' \<lparr>f_name = Some ''Bob'', f_email = None, f_phone = Some ''12345''\<rparr> 7 initial
     = (initial, respond 400 (Message ''Name, email, and phone are required.''))"
  using missing_field_rejected [of "\<lparr>f_name = Some ''Bob'', f_email = None, f_phone = Some ''12345''\<rparr>" 7 initial "''nowhere''"]
  by simp

section \<open>Identifiers that cannot be cast\<close>

text \<open>
  C10, as stated, fails: an update request whose id cannot be cast and whose body lacks
  a field is answered with 400 by the presence check, which runs before the id is used.
\<close>

theorem malformed_id_counterexample:
  "cast_ObjectId ''xyz'' = None
   \<and> status (snd (put_contact ''xyz'' \<lparr>f_name = None, f_email = None, f_phone = None\<rparr> 0 initial)) = 400"
  by (simp add: cast_ObjectId_def put_contact_def falsy_def respond_def)

text \<open>
  C10, amended. A delete request whose id cannot be cast to an ObjectId, and an update
  request with such an id whose three fields are present and non-empty, is answered with
  status 500 and the handler's generic message: the cast error is neither a validation
  error nor a duplicate key. The state is unchanged.
\<close>

theorem malformed_id_server_error:
  assumes "cast_ObjectId idp = None"
  shows "delete_contact idp st = (st, respond 500 (MessageError ''Error deleting contact'' (CastError idp)))
       \<and> (f_name b = Some n \<and> n \<noteq> [] \<and> f_email b = Some e \<and> e \<noteq> [] \<and> f_phone b = Some p \<and> p \<noteq> [] \<longrightarrow>
            put_contact idp b now st = (st, respond 500 (MessageError ''Error updating contact'' (CastError idp))))"
  using assms
  by (simp add: delete_contact_def findByIdAndDelete_def put_contact_def findByIdAndUpdate_def falsy_def)

theorem malformed_id_server_error_witness:
  "cast_ObjectId ''xyz'' = None
   \<and> delete_contact ''xyz'' initial
       = (initial, respond 500 (MessageError ''Error deleting contact'' (CastError ''xyz'')))
   \<and> put_contact ''xyz'' \<lparr>f_name = Some ''Bob'', f_email = Some ''bob@x.io'', f_phone = Some ''0123456789''\<rparr> 3 initial
       = (initial, respond 500 (MessageError ''Error updating contact'' (CastError ''xyz'')))"
proof -
  have c: "cast_ObjectId ''xyz'' = None"
    by (simp add: cast_ObjectId_def)
  show ?thesis
    using c malformed_id_server_error [OF c, where st = initial
        and b = "\<lparr>f_name = Some ''Bob'', f_email = Some ''bob@x.io'', f_phone = Some ''0123456789''\<rparr>"
        and now = 3 and n = "''Bob''" and e = "''bob@x.io''" and p = "''0123456789''"]
    by simp
qed

section \<open>Requests for a Contact that is not stored\<close>

text \<open>
  C8, as stated, fails: an update request for a well-formed id that identifies no stored
  Contact, with the email missing, is answered with 400 by the presence check, which
  runs before the lookup.
\<close>

theorem unknown_id_counterexample:
  "cast_ObjectId ''00000000000000000000000a'' = Some 10 \<and> 10 \<notin> cid ` set (contacts initial)
   \<and> status (snd (put_contact ''00000000000000000000000a''
        \<lparr>f_name = Some ''Bob'', f_email = None, f_phone = Some ''0123456789''\<rparr> 3 initial)) = 400"
  by (simp add: cast_ObjectId_def hex_val_def put_contact_def falsy_def respond_def initial_def)

text \<open>
  C8, amended. Where the target id identifies no stored Contact, an update or delete
  request leaves the state unchanged. The answer is 404 for a delete request whose id
  can be cast, and for an update request whose id can be cast and whose three fields are
  present and pass validation.
\<close>

theorem unknown_id_not_found:
  assumes "\<forall>i. cast_ObjectId idp = Some i \<longrightarrow> i \<notin> cid ` set (contacts st)"
  shows "fst (delete_contact idp st) = st \<and> fst (put_contact idp b now st) = st
       \<and> (cast_ObjectId idp \<noteq> None \<longrightarrow>
            delete_contact idp st = (st, respond 404 (Message ''Contact not found'')))
       \<and> (cast_ObjectId idp \<noteq> None
            \<and> f_name b = Some n \<and> f_email b = Some e \<and> f_phone b = Some p
            \<and> validate (set_name n) (set_email e) (set_phone p) = []
          \<longrightarrow> put_contact idp b now st = (st, respond 404 (Message ''Contact not found'')))"
proof -
  have "fst (delete_contact idp st) = st"
    using assms
    by (auto simp: delete_contact_def findByIdAndDelete_def find_None_cid split: option.splits)
  moreover have "fst (put_contact idp b now st) = st"
    using assms
    by (auto simp: put_contact_def findByIdAndUpdate_def Let_def find_None_cid split: option.splits)
  moreover have "cast_ObjectId idp \<noteq> None \<longrightarrow>
            delete_contact idp st = (st, respond 404 (Message ''Contact not found''))"
    using assms
    by (auto simp: delete_contact_def findByIdAndDelete_def find_None_cid)
  moreover have "cast_ObjectId idp \<noteq> None
            \<and> f_name b = Some n \<and> f_email b = Some e \<and> f_phone b = Some p
            \<and> validate (set_name n) (set_email e) (set_phone p) = []
          \<longrightarrow> put_contact idp b now st = (st, respond 404 (Message ''Contact not found''))"
    using assms valid_present [of n e p]
    by (auto simp: put_contact_def findByIdAndUpdate_def find_None_cid falsy_def)
  ultimately show ?thesis by blast
qed

theorem unknown_id_not_found_witness:
  "cast_ObjectId ''00000000000000000000000a'' = Some 10 \<and> 10 \<notin> cid ` set (contacts initial)
   \<and> delete_contact ''00000000000000000000000a'' initial = (initial, respond 404 (Message ''Contact not found''))
   \<and> put_contact ''00000000000000000000000a''
        \<lparr>f_name = Some ''Bob'', f_email = Some ''bob@x.io'', f_phone = Some ''0123456789''\<rparr> 3 initial
       = (initial, respond 404 (Message ''Contact not found''))"
proof -
  have h: "\<forall>i. cast_ObjectId ''00000000000000000000000a'' = Some i \<longrightarrow> i \<notin> cid ` set (contacts initial)"
    by (simp add: initial_def)
  have c: "cast_ObjectId ''00000000000000000000000a'' = Some 10"
    by (simp add: cast_ObjectId_def hex_val_def)
  have v: "validate (set_name ''Bob'') (set_email ''bob@x.io'') (set_phone ''0123456789'') = []"
    by (simp add: schema_defs string_defs)
  have n: "10 \<notin> cid ` set (contacts initial)"
    by (simp add: initial_def)
  show ?thesis
    using n c v unknown_id_not_found [OF h, of
        "\<lparr>f_name = Some ''Bob'', f_email = Some ''bob@x.io'', f_phone = Some ''0123456789''\<rparr>" 3
        "''Bob''" "''bob@x.io''" "''0123456789''"]
    by simp
qed

section \<open>The unique index on phone\<close>

text \<open>
  C3, as stated, fails: a create request with the phone of a stored Contact and no name
  is answered with 400, not 409.
\<close>

theorem duplicate_phone_counterexample:
  "map phone (contacts (fst (post_contacts
       \<lparr>f_name = Some ''Ann'', f_email = Some ''ann@x.io'', f_phone = Some ''0123456789''\<rparr> 1 initial)))
     = [''0123456789'']
   \<and> status (snd (post_contacts
       \<lparr>f_name = None, f_email = Some ''bob@x.io'', f_phone = Some ''0123456789''\<rparr> 2
       (fst (post_contacts
          \<lparr>f_name = Some ''Ann'', f_email = Some ''ann@x.io'', f_phone = Some ''0123456789''\<rparr> 1 initial)))) = 400"
  by (simp add: handler_defs schema_defs string_defs initial_def respond_def)

text \<open>
  C3, amended. A create request whose three fields are present and pass validation and
  whose phone, trimmed, is the phone of a stored Contact is answered with 409 and the
  duplicate-phone message, and the collection is unchanged. So is an update request with
  such fields whose id identifies a stored Contact, when the phone is that of a
  different stored Contact.
\<close>

theorem duplicate_phone_conflict:
  assumes fields: "f_name b = Some n" "f_email b = Some e" "f_phone b = Some p"
    and valid: "validate (set_name n) (set_email e) (set_phone p) = []"
    and held: "d \<in> set (contacts st)" "phone d = set_phone p"
  shows "snd (post_contacts b now st) = respond 409 (Message ''This phone number is already registered.'')
       \<and> contacts (fst (post_contacts b now st)) = contacts st
       \<and> (cast_ObjectId idp = Some i \<and> i \<in> cid ` set (contacts st) \<and> cid d \<noteq> i \<longrightarrow>
            put_contact idp b now st = (st, respond 409 (Message ''This phone number is already registered.'')))"
proof -
  have present: "\<not> falsy (f_name b)" "\<not> falsy (f_email b)" "\<not> falsy (f_phone b)"
    using fields valid_present [OF valid] by (simp_all add: falsy_def)
  have mem: "set_phone p \<in> phone ` set (contacts st)"
    using held by force
  have "snd (post_contacts b now st) = respond 409 (Message ''This phone number is already registered.'')"
    using present fields valid mem by (simp add: post_contacts_def save_def insert_doc_def)
  moreover have "contacts (fst (post_contacts b now st)) = contacts st"
    using present fields valid mem by (simp add: post_contacts_def save_def insert_doc_def)
  moreover have "put_contact idp b now st = (st, respond 409 (Message ''This phone number is already registered.''))"
    if c: "cast_ObjectId idp = Some i" and i: "i \<in> cid ` set (contacts st)" and ne: "cid d \<noteq> i"
  proof -
    obtain t where t: "find (\<lambda>d. cid d = i) (contacts st) = Some t"
      using i find_Some_cid by blast
    have "d \<in> set (remove_first (\<lambda>d. cid d = i) (contacts st))"
      using held(1) ne by (simp add: remove_first_keeps)
    then have "set_phone p \<in> phone ` set (remove_first (\<lambda>d. cid d = i) (contacts st))"
      using held(2) by force
    then show ?thesis
      using present fields valid c t by (simp add: put_contact_def findByIdAndUpdate_def)
  qed
  ultimately show ?thesis by blast
qed

theorem duplicate_phone_conflict_witness:
  "snd (post_contacts \<lparr>f_name = Some ''Bob'', f_email = Some ''bob@x.io'', f_phone = Some '' 0123456789''\<rparr> 5
      \<lparr>contacts = [\<lparr>cid = 0, name = ''Ann'', email = ''ann@x.io'', phone = ''0123456789'', createdAt = 1, updatedAt = 1\<rparr>,
                   \<lparr>cid = 1, name = ''Bob'', email = ''bob@x.io'', phone = ''1111111111'', createdAt = 2, updatedAt = 2\<rparr>],
        oid_counter = 2\<rparr>)
     = respond 409 (Message ''This phone number is already registered.'')
   \<and> snd (put_contact ''000000000000000000000001''
        \<lparr>f_name = Some ''Bob'', f_email = Some ''bob@x.io'', f_phone = Some '' 0123456789''\<rparr> 5
      \<lparr>contacts = [\<lparr>cid = 0, name = ''Ann'', email = ''ann@x.io'', phone = ''0123456789'', createdAt = 1, updatedAt = 1\<rparr>,
                   \<lparr>cid = 1, name = ''Bob'', email = ''bob@x.io'', phone = ''1111111111'', createdAt = 2, updatedAt = 2\<rparr>],
        oid_counter = 2\<rparr>)
     = respond 409 (Message ''This phone number is already registered.'')"
proof -
  have v: "validate (set_name ''Bob'') (set_email ''bob@x.io'') (set_phone '' 0123456789'') = []"
    by (simp add: schema_defs string_defs)
  have p: "set_phone '' 0123456789'' = ''0123456789''"
    by (simp add: schema_defs string_defs)
  have c: "cast_ObjectId ''000000000000000000000001'' = Some 1"
    by (simp add: cast_ObjectId_def hex_val_def)
  show ?thesis
    using v p c duplicate_phone_conflict [of
        "\<lparr>f_name = Some ''Bob'', f_email = Some ''bob@x.io'', f_phone = Some '' 0123456789''\<rparr>"
        "''Bob''" "''bob@x.io''" "'' 0123456789''"
        "\<lparr>cid = 0, name = ''Ann'', email = ''ann@x.io'', phone = ''0123456789'', createdAt = 1, updatedAt = 1\<rparr>"
        "\<lparr>contacts = [\<lparr>cid = 0, name = ''Ann'', email = ''ann@x.io'', phone = ''0123456789'', createdAt = 1, updatedAt = 1\<rparr>,
                   \<lparr>cid = 1, name = ''Bob'', email = ''bob@x.io'', phone = ''1111111111'', createdAt = 2, updatedAt = 2\<rparr>],
          oid_counter = 2\<rparr>"
        5 "''000000000000000000000001''" 1]
    by (simp add: falsy_def)
qed

lemma post_distinct:
  "distinct (map phone (contacts st)) \<Longrightarrow> distinct (map phone (contacts (fst (post_contacts b now st))))"
  by (auto simp: post_contacts_def save_def insert_doc_def Let_def split: sum.splits if_splits)

lemma put_distinct:
  "distinct (map phone (contacts st)) \<Longrightarrow> distinct (map phone (contacts (fst (put_contact idp b now st))))"
  by (auto simp: put_contact_def findByIdAndUpdate_def Let_def
           split: sum.splits if_splits option.splits intro!: distinct_replace_first)

lemma delete_distinct:
  "distinct (map phone (contacts st)) \<Longrightarrow> distinct (map phone (contacts (fst (delete_contact idp st))))"
  by (auto simp: delete_contact_def findByIdAndDelete_def
           split: sum.splits option.splits intro!: distinct_remove_first)

text \<open>
  C4. In every state reached from the empty collection by create, update and delete
  requests, no two stored Contacts have the same phone.
\<close>

theorem phones_unique:
  "reachable st \<Longrightarrow> distinct (map phone (contacts st))"
proof (induction rule: reachable.induct)
  case start
  show ?case by (simp add: initial_def)
next
  case (post st b now)
  then show ?case by (simp add: post_distinct)
next
  case (put st idp b now)
  then show ?case by (simp add: put_distinct)
next
  case (delete st idp)
  then show ?case by (simp add: delete_distinct)
qed

theorem phones_unique_witness:
  "reachable (fst (post_contacts \<lparr>f_name = Some ''Bob'', f_email = Some ''bob@x.io'', f_phone = Some ''1111111111''\<rparr> 2
      (fst (post_contacts \<lparr>f_name = Some ''Ann'', f_email = Some ''ann@x.io'', f_phone = Some ''0123456789''\<rparr> 1 initial))))
   \<and> map phone (contacts (fst (post_contacts \<lparr>f_name = Some ''Bob'', f_email = Some ''bob@x.io'', f_phone = Some ''1111111111''\<rparr> 2
      (fst (post_contacts \<lparr>f_name = Some ''Ann'', f_email = Some ''ann@x.io'', f_phone = Some ''0123456789''\<rparr> 1 initial)))))
     = [''0123456789'', ''1111111111'']
   \<and> distinct (map phone (contacts (fst (post_contacts \<lparr>f_name = Some ''Bob'', f_email = Some ''bob@x.io'', f_phone = Some ''1111111111''\<rparr> 2
      (fst (post_contacts \<lparr>f_name = Some ''Ann'', f_email = Some ''ann@x.io'', f_phone = Some ''0123456789''\<rparr> 1 initial))))))"
proof -
  have r: "reachable (fst (post_contacts \<lparr>f_name = Some ''Bob'', f_email = Some ''bob@x.io'', f_phone = Some ''1111111111''\<rparr> 2
      (fst (post_contacts \<lparr>f_name = Some ''Ann'', f_email = Some ''ann@x.io'', f_phone = Some ''0123456789''\<rparr> 1 initial))))"
    by (intro reachable.post reachable.start)
  have m: "map phone (contacts (fst (post_contacts \<lparr>f_name = Some ''Bob'', f_email = Some ''bob@x.io'', f_phone = Some ''1111111111''\<rparr> 2
      (fst (post_contacts \<lparr>f_name = Some ''Ann'', f_email = Some ''ann@x.io'', f_phone = Some ''0123456789''\<rparr> 1 initial)))))
     = [''0123456789'', ''1111111111'']"
    by (simp add: handler_defs schema_defs string_defs initial_def)
  show ?thesis
    using r m phones_unique [OF r] by blast
qed

section \<open>What an update changes\<close>

text \<open>
  C9. A successful update (status 200) changes, in the Contact the id identifies, the
  name, email, phone and \<open>updatedAt\<close> only: its id and \<open>createdAt\<close> are as before and
  \<open>updatedAt\<close> is the time of the update. Every other Contact is as before.
\<close>

theorem update_frame:
  assumes "put_contact idp b now st = (st', r)" and "status r = 200"
  shows "\<exists>n e p i d d'. f_name b = Some n \<and> f_email b = Some e \<and> f_phone b = Some p
           \<and> cast_ObjectId idp = Some i \<and> find (\<lambda>x. cid x = i) (contacts st) = Some d
           \<and> d' = d\<lparr>name := set_name n, email := set_email e, phone := set_phone p, updatedAt := now\<rparr>
           \<and> r = respond 200 (Doc d')
           \<and> cid d' = cid d \<and> createdAt d' = createdAt d \<and> updatedAt d' = now
           \<and> contacts st' = replace_first (\<lambda>x. cid x = i) d' (contacts st)
           \<and> map cid (contacts st') = map cid (contacts st)
           \<and> map createdAt (contacts st') = map createdAt (contacts st)
           \<and> oid_counter st' = oid_counter st"
  using assms
  apply (simp add: put_contact_def findByIdAndUpdate_def Let_def respond_def falsy_def
         split: if_splits option.splits sum.splits)
  apply (auto simp: map_replace_first elim!: update_catch.elims)
  done

theorem update_frame_witness:
  "put_contact ''000000000000000000000001''
        \<lparr>f_name = Some ''Robert'', f_email = Some ''Rob@x.io'', f_phone = Some ''2222222222''\<rparr> 9
      \<lparr>contacts = [\<lparr>cid = 0, name = ''Ann'', email = ''ann@x.io'', phone = ''0123456789'', createdAt = 1, updatedAt = 1\<rparr>,
                   \<lparr>cid = 1, name = ''Bob'', email = ''bob@x.io'', phone = ''1111111111'', createdAt = 2, updatedAt = 2\<rparr>],
        oid_counter = 2\<rparr>
   = (\<lparr>contacts = [\<lparr>cid = 0, name = ''Ann'', email = ''ann@x.io'', phone = ''0123456789'', createdAt = 1, updatedAt = 1\<rparr>,
                   \<lparr>cid = 1, name = ''Robert'', email = ''rob@x.io'', phone = ''2222222222'', createdAt = 2, updatedAt = 9\<rparr>],
        oid_counter = 2\<rparr>,
      respond 200 (Doc \<lparr>cid = 1, name = ''Robert'', email = ''rob@x.io'', phone = ''2222222222'', createdAt = 2, updatedAt = 9\<rparr>))"
proof -
  have e: "put_contact ''000000000000000000000001''
        \<lparr>f_name = Some ''Robert'', f_email = Some ''Rob@x.io'', f_phone = Some ''2222222222''\<rparr> 9
      \<lparr>contacts = [\<lparr>cid = 0, name = ''Ann'', email = ''ann@x.io'', phone = ''0123456789'', createdAt = 1, updatedAt = 1\<rparr>,
                   \<lparr>cid = 1, name = ''Bob'', email = ''bob@x.io'', phone = ''1111111111'', createdAt = 2, updatedAt = 2\<rparr>],
        oid_counter = 2\<rparr>
   = (\<lparr>contacts = [\<lparr>cid = 0, name = ''Ann'', email = ''ann@x.io'', phone = ''0123456789'', createdAt = 1, updatedAt = 1\<rparr>,
                   \<lparr>cid = 1, name = ''Robert'', email = ''rob@x.io'', phone = ''2222222222'', createdAt = 2, updatedAt = 9\<rparr>],
        oid_counter = 2\<rparr>,
      respond 200 (Doc \<lparr>cid = 1, name = ''Robert'', email = ''rob@x.io'', phone = ''2222222222'', createdAt = 2, updatedAt = 9\<rparr>))"
    by (simp add: handler_defs schema_defs string_defs)
  have s: "status (respond 200 (Doc \<lparr>cid = 1, name = ''Robert'', email = ''rob@x.io'', phone = ''2222222222'', createdAt = 2, updatedAt = 9\<rparr>)) = 200"
    by (simp add: respond_def)
  show ?thesis
    using update_frame [OF e s] e by blast
qed

section \<open>Facts about the strings and the regular expressions\<close>

lemma match_here_One:
  "match_here ci (One a # r) s \<longleftrightarrow> (\<exists>c t. s = c # t \<and> atom_ok ci a c \<and> match_here ci r t)"
  by (cases s) auto

lemma match_here_Plus:
  "match_here ci (Plus a # r) s \<longleftrightarrow>
     (\<exists>x t. s = x @ t \<and> x \<noteq> [] \<and> (\<forall>c\<in>set x. atom_ok ci a c) \<and> match_here ci r t)"
proof (induction s)
  case Nil
  show ?case by simp
next
  case (Cons c s)
  show ?case
  proof
    assume "match_here ci (Plus a # r) (c # s)"
    then have ok: "atom_ok ci a c" and alt: "match_here ci (Plus a # r) s \<or> match_here ci r s"
      by simp_all
    from alt show "\<exists>x t. c # s = x @ t \<and> x \<noteq> [] \<and> (\<forall>c\<in>set x. atom_ok ci a c) \<and> match_here ci r t"
    proof
      assume "match_here ci (Plus a # r) s"
      with Cons.IH obtain x t where "s = x @ t" "\<forall>c\<in>set x. atom_ok ci a c" "match_here ci r t"
        by blast
      with ok have "c # s = (c # x) @ t \<and> c # x \<noteq> [] \<and> (\<forall>d\<in>set (c # x). atom_ok ci a d) \<and> match_here ci r t"
        by simp
      then show ?thesis by blast
    next
      assume "match_here ci r s"
      with ok have "c # s = [c] @ s \<and> [c] \<noteq> [] \<and> (\<forall>d\<in>set [c]. atom_ok ci a d) \<and> match_here ci r s"
        by simp
      then show ?thesis by blast
    qed
  next
    assume "\<exists>x t. c # s = x @ t \<and> x \<noteq> [] \<and> (\<forall>c\<in>set x. atom_ok ci a c) \<and> match_here ci r t"
    then obtain x t where x: "c # s = x @ t" "x \<noteq> []" "\<forall>c\<in>set x. atom_ok ci a c" "match_here ci r t"
      by blast
    then obtain x' where x': "x = c # x'" "s = x' @ t"
      by (cases x) auto
    show "match_here ci (Plus a # r) (c # s)"
    proof (cases "x' = []")
      case True
      with x x' show ?thesis by simp
    next
      case False
      with x x' have "match_here ci (Plus a # r) s"
        using Cons.IH by auto
      with x x' show ?thesis by simp
    qed
  qed
qed

lemma regexp_test_iff:
  "regexp_test ci r s \<longleftrightarrow> (\<exists>p t. s = p @ t \<and> match_here ci r t)"
proof (induction s)
  case Nil
  show ?case by simp
next
  case (Cons c s)
  show ?case
  proof
    assume "regexp_test ci r (c # s)"
    then consider "match_here ci r (c # s)" | "regexp_test ci r s" by auto
    then show "\<exists>p t. c # s = p @ t \<and> match_here ci r t"
    proof cases
      case 1
      then have "c # s = [] @ (c # s) \<and> match_here ci r (c # s)" by simp
      then show ?thesis by blast
    next
      case 2
      with Cons.IH obtain p t where "s = p @ t" "match_here ci r t" by blast
      then have "c # s = (c # p) @ t \<and> match_here ci r t" by simp
      then show ?thesis by blast
    qed
  next
    assume "\<exists>p t. c # s = p @ t \<and> match_here ci r t"
    then obtain p t where pt: "c # s = p @ t" "match_here ci r t" by blast
    show "regexp_test ci r (c # s)"
    proof (cases p)
      case Nil
      with pt have "match_here ci r (c # s)" by simp
      then show ?thesis by simp
    next
      case (Cons d p')
      with pt have "s = p' @ t" by simp
      with pt Cons.IH have "regexp_test ci r s" by blast
      then show ?thesis by simp
    qed
  qed
qed

text \<open>A pattern of literal characters matches its own case-folded text.\<close>

lemma match_here_literal:
  "match_here True (map (\<lambda>c. One (Lit c)) s) t \<longleftrightarrow> prefix (map to_lower s) (map to_lower t)"
proof (induction s arbitrary: t)
  case Nil
  show ?case by simp
next
  case (Cons c s)
  show ?case
  proof (cases t)
    case Nil
    then show ?thesis by simp
  next
    case (Cons d t')
    with Cons.IH [of t'] show ?thesis by auto
  qed
qed

lemma regexp_test_literal:
  "regexp_test True (map (\<lambda>c. One (Lit c)) s) t \<longleftrightarrow> sublist (map to_lower s) (map to_lower t)"
proof (induction t)
  case Nil
  show ?case by (simp add: match_here_literal)
next
  case (Cons d t)
  then show ?case
    by (simp add: match_here_literal sublist_Cons_right)
qed

lemma not_syntax_char: "\<not> syntax_char c \<Longrightarrow> c \<noteq> CHR 0x5C \<and> c \<noteq> CHR ''.'' \<and> c \<notin> set ''*+?''"
  by (auto simp: syntax_char_def)

lemma parse_items_literal:
  "\<forall>c\<in>set s. \<not> syntax_char c \<Longrightarrow> parse_items s = Compiled (map (\<lambda>c. One (Lit c)) s)"
proof (induction s)
  case Nil
  show ?case by simp
next
  case (Cons c s)
  then have "\<not> syntax_char c" "c \<noteq> CHR 0x5C" "c \<noteq> CHR ''.''"
    using not_syntax_char [of c] by simp_all
  with Cons show ?case by simp
qed

lemma new_RegExp_literal:
  "\<forall>c\<in>set s. \<not> syntax_char c \<Longrightarrow> new_RegExp s = Compiled (map (\<lambda>c. One (Lit c)) s)"
  using not_syntax_char
  by (cases s) (auto simp: new_RegExp_def parse_items_literal simp del: parse_items.simps)

lemma of_char_to_lower:
  "(of_char (to_lower c) :: nat) =
     (if (65 \<le> (of_char c :: nat) \<and> (of_char c :: nat) \<le> 90)
          \<or> (192 \<le> (of_char c :: nat) \<and> (of_char c :: nat) \<le> 222 \<and> (of_char c :: nat) \<noteq> 215)
      then of_char c + 32 else of_char c)"
proof (cases "(65 \<le> (of_char c :: nat) \<and> (of_char c :: nat) \<le> 90)
          \<or> (192 \<le> (of_char c :: nat) \<and> (of_char c :: nat) \<le> 222 \<and> (of_char c :: nat) \<noteq> 215)")
  case True
  then have "to_lower c = char_of ((of_char c :: nat) + 32)"
    unfolding to_lower_def Let_def by (simp only: if_True)
  moreover have "((of_char c :: nat) + 32) mod 256 = of_char c + 32"
    using True by (intro mod_less) linarith
  ultimately show ?thesis
    using True by (simp only: of_char_of if_True)
next
  case False
  then have "to_lower c = c"
    unfolding to_lower_def Let_def by (simp only: if_False)
  with False show ?thesis by (simp only: if_False)
qed

lemma to_lower_low:
  assumes "(of_char d :: nat) < 65"
  shows "to_lower c = d \<longleftrightarrow> c = d"
proof
  assume "to_lower c = d"
  then have "(of_char (to_lower c) :: nat) = of_char d" by simp
  with assms have "(of_char c :: nat) = of_char d"
    unfolding of_char_to_lower by (simp split: if_splits)
  then show "c = d" by simp
next
  assume "c = d"
  with assms show "to_lower c = d" by (simp add: to_lower_def)
qed

lemma is_space_to_lower: "is_space (to_lower c) = is_space c"
  unfolding is_space_def of_char_to_lower by (simp split: if_splits)

lemma trim_toLowerCase: "trim (toLowerCase s) = toLowerCase (trim s)"
proof -
  have c: "is_space \<circ> to_lower = is_space"
    by (rule ext) (simp add: is_space_to_lower)
  have d: "dropWhile is_space (map to_lower xs) = map to_lower (dropWhile is_space xs)" for xs
    by (simp add: dropWhile_map c)
  show ?thesis
    by (simp add: trim_def toLowerCase_def d rev_map)
qed

lemma match_here_map:
  assumes "\<And>a c. a \<in> A \<Longrightarrow> atom_ok ci a (f c) = atom_ok ci a c"
  shows "(\<forall>i\<in>set r. case i of One a \<Rightarrow> a \<in> A | Plus a \<Rightarrow> a \<in> A) \<Longrightarrow>
         match_here ci r (map f s) = match_here ci r s"
  using assms by (induction ci r s rule: match_here.induct) auto

lemma regexp_test_map:
  assumes "\<And>a c. a \<in> A \<Longrightarrow> atom_ok ci a (f c) = atom_ok ci a c"
    and "\<forall>i\<in>set r. case i of One a \<Rightarrow> a \<in> A | Plus a \<Rightarrow> a \<in> A"
  shows "regexp_test ci r (map f s) = regexp_test ci r s"
proof (induction s)
  case Nil
  show ?case using match_here_map [OF assms, of "[]"] by simp
next
  case (Cons c s)
  then show ?case using match_here_map [OF assms, of "c # s"] by simp
qed

lemma email_regexp_toLowerCase:
  "regexp_test False email_regexp (toLowerCase v) = regexp_test False email_regexp v"
proof -
  have at: "(CHR ''@'' = to_lower c) = (CHR ''@'' = c)" for c
    using to_lower_low [of "CHR ''@''" c] by auto
  have dot: "(CHR ''.'' = to_lower c) = (CHR ''.'' = c)" for c
    using to_lower_low [of "CHR ''.''" c] by auto
  have lf: "(to_lower c = CHR 0x0A) = (c = CHR 0x0A)" for c
    using to_lower_low [of "CHR 0x0A" c] by simp
  have cr: "(to_lower c = CHR 0x0D) = (c = CHR 0x0D)" for c
    using to_lower_low [of "CHR 0x0D" c] by simp
  have ok: "atom_ok False a (to_lower c) = atom_ok False a c"
    if "a \<in> {js_dot, Lit CHR ''@'', Lit CHR ''.''}" for a c
  proof -
    from that consider "a = js_dot" | "a = Lit CHR ''@''" | "a = Lit CHR ''.''" by blast
    then show ?thesis
    proof cases
      case 1
      then show ?thesis by (simp add: js_dot_def lf cr)
    next
      case 2
      then show ?thesis by (simp add: at)
    next
      case 3
      then show ?thesis by (simp add: dot)
    qed
  qed
  have items: "\<forall>i\<in>set email_regexp. case i of One a \<Rightarrow> a \<in> {js_dot, Lit CHR ''@'', Lit CHR ''.''}
      | Plus a \<Rightarrow> a \<in> {js_dot, Lit CHR ''@'', Lit CHR ''.''}"
    by (simp add: email_regexp_def)
  show ?thesis
    unfolding toLowerCase_def using ok items by (rule regexp_test_map)
qed

lemma js_dot_ok: "atom_ok ci js_dot c \<longleftrightarrow> c \<noteq> CHR 0x0A \<and> c \<noteq> CHR 0x0D"
  by (simp add: js_dot_def)

lemma match_here_PlusD:
  assumes "match_here ci (Plus a # r) s"
  obtains x t where "s = x @ t" "x \<noteq> []" "\<forall>c\<in>set x. atom_ok ci a c" "match_here ci r t"
  using assms match_here_Plus [of ci a r s] by blast

lemma match_here_OneD:
  assumes "match_here ci (One a # r) s"
  obtains c t where "s = c # t" "atom_ok ci a c" "match_here ci r t"
  using assms match_here_One [of ci a r s] by blast

lemma match_here_PlusI:
  "x \<noteq> [] \<Longrightarrow> \<forall>c\<in>set x. atom_ok ci a c \<Longrightarrow> match_here ci r t \<Longrightarrow> match_here ci (Plus a # r) (x @ t)"
  using match_here_Plus [of ci a r "x @ t"] by blast

lemma email_regexp_fw:
  assumes l: "regexp_test False email_regexp v"
  obtains p x y z q where "v = p @ x @ ''@'' @ y @ ''.'' @ z @ q" "x \<noteq> []" "y \<noteq> []" "z \<noteq> []"
    "\<forall>c\<in>set (x @ y @ z). c \<noteq> CHR 0x0A \<and> c \<noteq> CHR 0x0D"
proof -
  have "\<exists>p t. v = p @ t \<and> match_here False email_regexp t"
    using l by (simp only: regexp_test_iff)
  then obtain p t1 where v: "v = p @ t1" and m1: "match_here False email_regexp t1"
    by (elim exE conjE)
  from m1 obtain x t2 where x: "t1 = x @ t2" "x \<noteq> []" "\<forall>c\<in>set x. atom_ok False js_dot c"
    and m2: "match_here False [One (Lit CHR ''@''), Plus js_dot, One (Lit CHR ''.''), Plus js_dot] t2"
    unfolding email_regexp_def by (rule match_here_PlusD)
  from m2 obtain c t3 where c: "t2 = c # t3" "atom_ok False (Lit CHR ''@'') c"
    and m3: "match_here False [Plus js_dot, One (Lit CHR ''.''), Plus js_dot] t3"
    by (rule match_here_OneD)
  from m3 obtain y t4 where y: "t3 = y @ t4" "y \<noteq> []" "\<forall>c\<in>set y. atom_ok False js_dot c"
    and m4: "match_here False [One (Lit CHR ''.''), Plus js_dot] t4"
    by (rule match_here_PlusD)
  from m4 obtain d t5 where d: "t4 = d # t5" "atom_ok False (Lit CHR ''.'') d"
    and m5: "match_here False [Plus js_dot] t5"
    by (rule match_here_OneD)
  from m5 obtain z q where z: "t5 = z @ q" "z \<noteq> []" "\<forall>c\<in>set z. atom_ok False js_dot c"
    by (rule match_here_PlusD)
  have "c = CHR ''@''" "d = CHR ''.''"
    using c(2) d(2) by simp_all
  then have eq: "v = p @ x @ ''@'' @ y @ ''.'' @ z @ q"
    using v x(1) c(1) y(1) d(1) z(1) by simp
  have nl: "\<forall>c\<in>set (x @ y @ z). c \<noteq> CHR 0x0A \<and> c \<noteq> CHR 0x0D"
    using x(3) y(3) z(3) by (simp add: js_dot_ok ball_Un)
  show thesis
    by (rule that [OF eq x(2) y(2) z(2) nl])
qed

lemma email_regexp_bw:
  assumes v: "x \<noteq> []" "y \<noteq> []" "z \<noteq> []"
    and nl: "\<forall>c\<in>set (x @ y @ z). c \<noteq> CHR 0x0A \<and> c \<noteq> CHR 0x0D"
  shows "regexp_test False email_regexp (p @ x @ ''@'' @ y @ ''.'' @ z @ q)"
proof -
  from nl have ok: "\<forall>c\<in>set x. atom_ok False js_dot c" "\<forall>c\<in>set y. atom_ok False js_dot c"
      "\<forall>c\<in>set z. atom_ok False js_dot c"
    by (simp_all add: js_dot_ok ball_Un)
  have "match_here False [] q" by simp
  then have "match_here False [Plus js_dot] (z @ q)"
    using v(3) ok(3) by (simp add: match_here_PlusI)
  then have "match_here False [One (Lit CHR ''.''), Plus js_dot] (CHR ''.'' # z @ q)"
    by simp
  then have "match_here False [Plus js_dot, One (Lit CHR ''.''), Plus js_dot] (y @ CHR ''.'' # z @ q)"
    using v(2) ok(2) by (simp add: match_here_PlusI)
  then have "match_here False [One (Lit CHR ''@''), Plus js_dot, One (Lit CHR ''.''), Plus js_dot]
      (CHR ''@'' # y @ CHR ''.'' # z @ q)"
    by simp
  then have "match_here False email_regexp (x @ CHR ''@'' # y @ CHR ''.'' # z @ q)"
    unfolding email_regexp_def using v(1) ok(1) by (simp add: match_here_PlusI)
  then have "\<exists>s t. p @ x @ ''@'' @ y @ ''.'' @ z @ q = s @ t \<and> match_here False email_regexp t"
    by (intro exI [of _ p] exI [of _ "x @ CHR ''@'' # y @ CHR ''.'' # z @ q"]) simp
  then show ?thesis
    by (simp only: regexp_test_iff)
qed

lemma email_regexp_shape:
  assumes "CHR 0x0A \<notin> set v" "CHR 0x0D \<notin> set v"
  shows "regexp_test False email_regexp v \<longleftrightarrow> email_shape v"
proof
  assume "regexp_test False email_regexp v"
  then obtain p x y z q where v: "v = p @ x @ ''@'' @ y @ ''.'' @ z @ q" "x \<noteq> []" "y \<noteq> []" "z \<noteq> []"
    by (rule email_regexp_fw)
  then have "p @ x \<noteq> [] \<and> y \<noteq> [] \<and> z @ q \<noteq> [] \<and> v = (p @ x) @ ''@'' @ y @ ''.'' @ (z @ q)"
    by simp
  then show "email_shape v"
    unfolding email_shape_def
    by (intro exI [of _ "p @ x"] exI [of _ y] exI [of _ "z @ q"])
next
  assume "email_shape v"
  then obtain x y z where v: "x \<noteq> []" "y \<noteq> []" "z \<noteq> []" "v = x @ ''@'' @ y @ ''.'' @ z"
    unfolding email_shape_def by (elim exE conjE)
  from assms have "\<forall>c\<in>set (x @ y @ z). c \<noteq> CHR 0x0A \<and> c \<noteq> CHR 0x0D"
    unfolding v(4) by auto
  then have "regexp_test False email_regexp ([] @ x @ ''@'' @ y @ ''.'' @ z @ [])"
    using v(1,2,3) by (intro email_regexp_bw)
  then show "regexp_test False email_regexp v"
    unfolding v(4) by simp
qed

lemma set_email_eq: "set_email e = toLowerCase (trim e)"
  by (simp add: set_email_def trim_toLowerCase)

lemma validate_email_rejects:
  "validate_email e' \<noteq> [] \<Longrightarrow> validate n' e' p' \<noteq> []"
  by (simp add: validate_def)

lemma email_error_post:
  assumes "validate_email (set_email e) \<noteq> []" and "f_email b = Some e"
  shows "status (snd (post_contacts b now st)) = 400"
proof (cases "falsy (f_name b) \<or> falsy (f_email b) \<or> falsy (f_phone b)")
  case True
  then show ?thesis by (simp add: post_contacts_def respond_def)
next
  case False
  moreover have "validate (set_name (the (f_name b))) (set_email e) (set_phone (the (f_phone b))) \<noteq> []"
    using assms(1) by (rule validate_email_rejects)
  ultimately show ?thesis
    using assms(2) by (simp add: post_contacts_def save_def respond_def)
qed

lemma email_error_put:
  assumes "validate_email (set_email e) \<noteq> []" and "f_email b = Some e" and "cast_ObjectId idp \<noteq> None"
  shows "status (snd (put_contact idp b now st)) = 400"
proof (cases "falsy (f_name b) \<or> falsy (f_email b) \<or> falsy (f_phone b)")
  case True
  then show ?thesis by (simp add: put_contact_def respond_def)
next
  case False
  moreover have "validate (set_name (the (f_name b))) (set_email e) (set_phone (the (f_phone b))) \<noteq> []"
    using assms(1) by (rule validate_email_rejects)
  moreover obtain i where "cast_ObjectId idp = Some i"
    using assms(3) by blast
  ultimately show ?thesis
    using assms(2) by (simp add: put_contact_def findByIdAndUpdate_def respond_def)
qed

lemma set_find_sorted_None: "set (find_sorted None cs) = set cs"
  by (simp add: find_sorted_def)

lemma sorted_find_sorted: "sorted (map (\<lambda>d. collation_key (name d)) (find_sorted q cs))"
  by (simp add: find_sorted_def)

section \<open>Searching and listing\<close>

text \<open>
  C1, as stated, fails: the search string is compiled as a regular expression, so the
  search \<open>b.b\<close> returns the Contact named \<open>bob\<close>, whose name does not contain \<open>b.b\<close>.
\<close>

theorem search_counterexample:
  "get_contacts (Some ''b.b'')
     \<lparr>contacts = [\<lparr>cid = 0, name = ''bob'', email = ''bob@x.io'', phone = ''0123456789'', createdAt = 1, updatedAt = 1\<rparr>],
      oid_counter = 1\<rparr>
   = Some (respond 200 (Contacts
       [\<lparr>cid = 0, name = ''bob'', email = ''bob@x.io'', phone = ''0123456789'', createdAt = 1, updatedAt = 1\<rparr>]))
   \<and> \<not> contains_ci ''b.b'' ''bob''"
  by (simp add: get_contacts_def falsy_def new_RegExp_def syntax_char_def pcre_dot_def find_sorted_def
        contains_ci_def string_defs sublist_code prefix_code)

text \<open>
  C1, amended. For a search string that is present, non-empty and free of the
  characters with a meaning in a regular expression, the answer lists exactly the stored
  Contacts whose name contains it as a case-insensitive substring; with the search
  absent or empty, it lists all stored Contacts.
\<close>

theorem search_literal:
  assumes "s \<noteq> []" and "\<forall>c\<in>set s. \<not> syntax_char c"
  shows "\<exists>cs all. get_contacts (Some s) st = Some (respond 200 (Contacts cs))
           \<and> mset cs = filter_mset (\<lambda>d. contains_ci s (name d)) (mset (contacts st))
           \<and> get_contacts None st = Some (respond 200 (Contacts all))
           \<and> get_contacts (Some []) st = Some (respond 200 (Contacts all))
           \<and> mset all = mset (contacts st)"
proof -
  have 1: "get_contacts (Some s) st = Some (respond 200
      (Contacts (find_sorted (Some (regexp_test True (map (\<lambda>c. One (Lit c)) s))) (contacts st))))"
    using assms by (simp add: get_contacts_def falsy_def new_RegExp_literal)
  have 2: "mset (find_sorted (Some (regexp_test True (map (\<lambda>c. One (Lit c)) s))) (contacts st))
      = filter_mset (\<lambda>d. contains_ci s (name d)) (mset (contacts st))"
    by (simp add: find_sorted_def regexp_test_literal contains_ci_def toLowerCase_def)
  have 3: "get_contacts None st = Some (respond 200 (Contacts (find_sorted None (contacts st))))"
    "get_contacts (Some []) st = Some (respond 200 (Contacts (find_sorted None (contacts st))))"
    by (simp_all add: get_contacts_def falsy_def)
  have 4: "mset (find_sorted None (contacts st)) = mset (contacts st)"
    by (simp add: find_sorted_def)
  from 1 2 3 4 show ?thesis by blast
qed

theorem search_literal_witness:
  "filter syntax_char ''bob'' = []
   \<and> get_contacts (Some ''bob'')
       \<lparr>contacts = [\<lparr>cid = 0, name = ''bobby'', email = ''b@x.io'', phone = ''0000000000'', createdAt = 1, updatedAt = 1\<rparr>,
                    \<lparr>cid = 1, name = ''Alice'', email = ''a@x.io'', phone = ''1111111111'', createdAt = 2, updatedAt = 2\<rparr>,
                    \<lparr>cid = 2, name = ''Bob Smith'', email = ''s@x.io'', phone = ''2222222222'', createdAt = 3, updatedAt = 3\<rparr>],
         oid_counter = 3\<rparr>
     = Some (respond 200 (Contacts
         [\<lparr>cid = 2, name = ''Bob Smith'', email = ''s@x.io'', phone = ''2222222222'', createdAt = 3, updatedAt = 3\<rparr>,
          \<lparr>cid = 0, name = ''bobby'', email = ''b@x.io'', phone = ''0000000000'', createdAt = 1, updatedAt = 1\<rparr>]))
   \<and> contains_ci ''bob'' ''Bob Smith'' \<and> contains_ci ''bob'' ''bobby'' \<and> \<not> contains_ci ''bob'' ''Alice''"
proof -
  have h: "''bob'' \<noteq> []" "\<forall>c\<in>set ''bob''. \<not> syntax_char c"
    by (simp_all add: syntax_char_def)
  have e: "get_contacts (Some ''bob'')
       \<lparr>contacts = [\<lparr>cid = 0, name = ''bobby'', email = ''b@x.io'', phone = ''0000000000'', createdAt = 1, updatedAt = 1\<rparr>,
                    \<lparr>cid = 1, name = ''Alice'', email = ''a@x.io'', phone = ''1111111111'', createdAt = 2, updatedAt = 2\<rparr>,
                    \<lparr>cid = 2, name = ''Bob Smith'', email = ''s@x.io'', phone = ''2222222222'', createdAt = 3, updatedAt = 3\<rparr>],
         oid_counter = 3\<rparr>
     = Some (respond 200 (Contacts
         [\<lparr>cid = 2, name = ''Bob Smith'', email = ''s@x.io'', phone = ''2222222222'', createdAt = 3, updatedAt = 3\<rparr>,
          \<lparr>cid = 0, name = ''bobby'', email = ''b@x.io'', phone = ''0000000000'', createdAt = 1, updatedAt = 1\<rparr>]))"
    by (simp add: get_contacts_def falsy_def new_RegExp_def syntax_char_def find_sorted_def
          collation_key_def string_defs)
  have c: "contains_ci ''bob'' ''Bob Smith'' \<and> contains_ci ''bob'' ''bobby'' \<and> \<not> contains_ci ''bob'' ''Alice''"
    by (simp add: contains_ci_def string_defs sublist_code prefix_code)
  have f: "filter syntax_char ''bob'' = []"
    by (simp add: syntax_char_def)
  show ?thesis
    using f e c search_literal [OF h, of
       "\<lparr>contacts = [\<lparr>cid = 0, name = ''bobby'', email = ''b@x.io'', phone = ''0000000000'', createdAt = 1, updatedAt = 1\<rparr>,
                    \<lparr>cid = 1, name = ''Alice'', email = ''a@x.io'', phone = ''1111111111'', createdAt = 2, updatedAt = 2\<rparr>,
                    \<lparr>cid = 2, name = ''Bob Smith'', email = ''s@x.io'', phone = ''2222222222'', createdAt = 3, updatedAt = 3\<rparr>],
         oid_counter = 3\<rparr>"]
    by simp
qed

text \<open>
  C6. Whatever the query, the Contacts the store returns are in ascending order of the
  collation key of their names, the name with its letters folded to one case; so are
  the Contacts of every listing the handler answers with; and stored names charlie,
  Alice, bob are listed as Alice, bob, charlie.
\<close>

theorem listing_sorted:
  "sorted (map (\<lambda>d. collation_key (name d)) (find_sorted q cs))
   \<and> (get_contacts search st = Some r \<and> status r = 200 \<longrightarrow>
        (\<exists>cs. body r = Contacts cs \<and> sorted (map (\<lambda>d. collation_key (name d)) cs)))
   \<and> (\<exists>cs. get_contacts None st = Some (respond 200 (Contacts cs))
         \<and> sorted (map (\<lambda>d. collation_key (name d)) cs)
         \<and> (map name (contacts st) = [''charlie'', ''Alice'', ''bob''] \<longrightarrow>
              map name cs = [''Alice'', ''bob'', ''charlie'']))"
proof -
  have 0: "sorted (map (\<lambda>d. collation_key (name d)) (find_sorted q cs))"
    by (rule sorted_find_sorted)
  have 1: "get_contacts search st = Some r \<and> status r = 200 \<longrightarrow>
      (\<exists>cs. body r = Contacts cs \<and> sorted (map (\<lambda>d. collation_key (name d)) cs))"
    by (auto simp: get_contacts_def respond_def sorted_find_sorted
          split: option.splits if_splits compiled.splits)
  have 2: "get_contacts None st = Some (respond 200 (Contacts (find_sorted None (contacts st))))"
    by (simp add: get_contacts_def falsy_def)
  have 3: "map name (find_sorted None (contacts st)) = [''Alice'', ''bob'', ''charlie'']"
    if "map name (contacts st) = [''charlie'', ''Alice'', ''bob'']"
  proof -
    from that obtain x y z where "contacts st = [x, y, z]"
      "name x = ''charlie''" "name y = ''Alice''" "name z = ''bob''"
      by (auto simp: map_eq_Cons_conv)
    then show ?thesis
      by (simp add: find_sorted_def collation_key_def string_defs)
  qed
  have 4: "\<exists>cs. get_contacts None st = Some (respond 200 (Contacts cs))
         \<and> sorted (map (\<lambda>d. collation_key (name d)) cs)
         \<and> (map name (contacts st) = [''charlie'', ''Alice'', ''bob''] \<longrightarrow>
              map name cs = [''Alice'', ''bob'', ''charlie''])"
    using 2 3 sorted_find_sorted [of None "contacts st"]
    by (intro exI [of _ "find_sorted None (contacts st)"]) simp
  from 0 1 4 show ?thesis by (intro conjI)
qed

theorem listing_sorted_witness:
  "get_contacts None
       \<lparr>contacts = [\<lparr>cid = 0, name = ''charlie'', email = ''c@x.io'', phone = ''0000000000'', createdAt = 1, updatedAt = 1\<rparr>,
                    \<lparr>cid = 1, name = ''Alice'', email = ''a@x.io'', phone = ''1111111111'', createdAt = 2, updatedAt = 2\<rparr>,
                    \<lparr>cid = 2, name = ''bob'', email = ''b@x.io'', phone = ''2222222222'', createdAt = 3, updatedAt = 3\<rparr>],
         oid_counter = 3\<rparr>
     = Some (respond 200 (Contacts
         [\<lparr>cid = 1, name = ''Alice'', email = ''a@x.io'', phone = ''1111111111'', createdAt = 2, updatedAt = 2\<rparr>,
          \<lparr>cid = 2, name = ''bob'', email = ''b@x.io'', phone = ''2222222222'', createdAt = 3, updatedAt = 3\<rparr>,
          \<lparr>cid = 0, name = ''charlie'', email = ''c@x.io'', phone = ''0000000000'', createdAt = 1, updatedAt = 1\<rparr>]))
   \<and> sorted [collation_key ''Alice'', collation_key ''bob'', collation_key ''charlie'']"
proof -
  have e: "get_contacts None
       \<lparr>contacts = [\<lparr>cid = 0, name = ''charlie'', email = ''c@x.io'', phone = ''0000000000'', createdAt = 1, updatedAt = 1\<rparr>,
                    \<lparr>cid = 1, name = ''Alice'', email = ''a@x.io'', phone = ''1111111111'', createdAt = 2, updatedAt = 2\<rparr>,
                    \<lparr>cid = 2, name = ''bob'', email = ''b@x.io'', phone = ''2222222222'', createdAt = 3, updatedAt = 3\<rparr>],
         oid_counter = 3\<rparr>
     = Some (respond 200 (Contacts
         [\<lparr>cid = 1, name = ''Alice'', email = ''a@x.io'', phone = ''1111111111'', createdAt = 2, updatedAt = 2\<rparr>,
          \<lparr>cid = 2, name = ''bob'', email = ''b@x.io'', phone = ''2222222222'', createdAt = 3, updatedAt = 3\<rparr>,
          \<lparr>cid = 0, name = ''charlie'', email = ''c@x.io'', phone = ''0000000000'', createdAt = 1, updatedAt = 1\<rparr>]))"
    by (simp add: get_contacts_def falsy_def find_sorted_def collation_key_def string_defs)
  have s: "status (respond 200 (Contacts
         [\<lparr>cid = 1, name = ''Alice'', email = ''a@x.io'', phone = ''1111111111'', createdAt = 2, updatedAt = 2\<rparr>,
          \<lparr>cid = 2, name = ''bob'', email = ''b@x.io'', phone = ''2222222222'', createdAt = 3, updatedAt = 3\<rparr>,
          \<lparr>cid = 0, name = ''charlie'', email = ''c@x.io'', phone = ''0000000000'', createdAt = 1, updatedAt = 1\<rparr>])) = 200"
    by (simp add: respond_def)
  have "sorted [collation_key ''Alice'', collation_key ''bob'', collation_key ''charlie'']"
    using e s listing_sorted [where search = None and st =
       "\<lparr>contacts = [\<lparr>cid = 0, name = ''charlie'', email = ''c@x.io'', phone = ''0000000000'', createdAt = 1, updatedAt = 1\<rparr>,
                    \<lparr>cid = 1, name = ''Alice'', email = ''a@x.io'', phone = ''1111111111'', createdAt = 2, updatedAt = 2\<rparr>,
                    \<lparr>cid = 2, name = ''bob'', email = ''b@x.io'', phone = ''2222222222'', createdAt = 3, updatedAt = 3\<rparr>],
         oid_counter = 3\<rparr>"
       and r = "respond 200 (Contacts
         [\<lparr>cid = 1, name = ''Alice'', email = ''a@x.io'', phone = ''1111111111'', createdAt = 2, updatedAt = 2\<rparr>,
          \<lparr>cid = 2, name = ''bob'', email = ''b@x.io'', phone = ''2222222222'', createdAt = 3, updatedAt = 3\<rparr>,
          \<lparr>cid = 0, name = ''charlie'', email = ''c@x.io'', phone = ''0000000000'', createdAt = 1, updatedAt = 1\<rparr>])"]
    by (simp add: respond_def)
  with e show ?thesis by simp
qed

section \<open>Reading a created Contact back\<close>

text \<open>
  C2, as stated, fails: the schema lower-cases the email (and trims the three fields), so
  the Contact created from the email \<open>Ann@X.io\<close> has the email \<open>ann@x.io\<close>.
\<close>

theorem create_readback_counterexample:
  "snd (post_contacts \<lparr>f_name = Some ''Ann'', f_email = Some ''Ann@X.io'', f_phone = Some ''0123456789''\<rparr> 1 initial)
     = respond 201 (Doc \<lparr>cid = 0, name = ''Ann'', email = ''ann@x.io'', phone = ''0123456789'', createdAt = 1, updatedAt = 1\<rparr>)
   \<and> ''ann@x.io'' \<noteq> ''Ann@X.io''"
  by (simp add: handler_defs schema_defs string_defs initial_def)

text \<open>
  C2, amended. For every input accepted by create (status 201), the created Contact, as
  returned and as listed afterwards, has the trimmed input name, the trimmed and
  lower-cased input email and the trimmed input phone; it equals the input in these
  fields where the input is already in that form.
\<close>

theorem create_readback:
  assumes "post_contacts b now st = (st', r)" and "status r = 201"
  shows "\<exists>n e p d cs. f_name b = Some n \<and> f_email b = Some e \<and> f_phone b = Some p
           \<and> body r = Doc d \<and> get_contacts None st' = Some (respond 200 (Contacts cs)) \<and> d \<in> set cs
           \<and> name d = trim n \<and> email d = trim (toLowerCase e) \<and> phone d = trim p
           \<and> (trim n = n \<and> trim (toLowerCase e) = e \<and> trim p = p \<longrightarrow>
                name d = n \<and> email d = e \<and> phone d = p)"
  using assms
  apply (simp add: post_contacts_def save_def insert_doc_def Let_def respond_def falsy_def
         split: if_splits option.splits sum.splits)
  apply (auto simp: get_contacts_def falsy_def respond_def set_find_sorted_None
      set_name_def set_email_def set_phone_def elim!: create_catch.elims)
  done

theorem create_readback_witness:
  "post_contacts \<lparr>f_name = Some ''Ann'', f_email = Some ''ann@x.io'', f_phone = Some ''0123456789''\<rparr> 1 initial
     = (\<lparr>contacts = [\<lparr>cid = 0, name = ''Ann'', email = ''ann@x.io'', phone = ''0123456789'', createdAt = 1, updatedAt = 1\<rparr>],
         oid_counter = 1\<rparr>,
        respond 201 (Doc \<lparr>cid = 0, name = ''Ann'', email = ''ann@x.io'', phone = ''0123456789'', createdAt = 1, updatedAt = 1\<rparr>))
   \<and> get_contacts None
        \<lparr>contacts = [\<lparr>cid = 0, name = ''Ann'', email = ''ann@x.io'', phone = ''0123456789'', createdAt = 1, updatedAt = 1\<rparr>],
         oid_counter = 1\<rparr>
     = Some (respond 200 (Contacts
        [\<lparr>cid = 0, name = ''Ann'', email = ''ann@x.io'', phone = ''0123456789'', createdAt = 1, updatedAt = 1\<rparr>]))"
proof -
  have e: "post_contacts \<lparr>f_name = Some ''Ann'', f_email = Some ''ann@x.io'', f_phone = Some ''0123456789''\<rparr> 1 initial
     = (\<lparr>contacts = [\<lparr>cid = 0, name = ''Ann'', email = ''ann@x.io'', phone = ''0123456789'', createdAt = 1, updatedAt = 1\<rparr>],
         oid_counter = 1\<rparr>,
        respond 201 (Doc \<lparr>cid = 0, name = ''Ann'', email = ''ann@x.io'', phone = ''0123456789'', createdAt = 1, updatedAt = 1\<rparr>))"
    by (simp add: handler_defs schema_defs string_defs initial_def)
  have s: "status (respond 201 (Doc \<lparr>cid = 0, name = ''Ann'', email = ''ann@x.io'', phone = ''0123456789'', createdAt = 1, updatedAt = 1\<rparr>)) = 201"
    by (simp add: respond_def)
  have g: "get_contacts None
        \<lparr>contacts = [\<lparr>cid = 0, name = ''Ann'', email = ''ann@x.io'', phone = ''0123456789'', createdAt = 1, updatedAt = 1\<rparr>],
         oid_counter = 1\<rparr>
     = Some (respond 200 (Contacts
        [\<lparr>cid = 0, name = ''Ann'', email = ''ann@x.io'', phone = ''0123456789'', createdAt = 1, updatedAt = 1\<rparr>]))"
    using create_readback [OF e s] by (simp add: get_contacts_def falsy_def find_sorted_def)
  from e g show ?thesis by simp
qed

section \<open>The email validator\<close>

text \<open>
  C7, as stated, fails: the dot of the email pattern does not match a line terminator,
  so the email \<open>a@\<close>, line feed, \<open>.b\<close> has the full shape, is not empty when trimmed, and
  fails validation.
\<close>

theorem email_validation_counterexample:
  "validate_email (set_email [CHR ''a'', CHR ''@'', CHR 0x0A, CHR ''.'', CHR ''b'']) \<noteq> []
   \<and> status (snd (post_contacts
        \<lparr>f_name = Some ''Ann'', f_email = Some [CHR ''a'', CHR ''@'', CHR 0x0A, CHR ''.'', CHR ''b''],
          f_phone = Some ''0123456789''\<rparr> 1 initial)) = 400
   \<and> trim [CHR ''a'', CHR ''@'', CHR 0x0A, CHR ''.'', CHR ''b''] \<noteq> []
   \<and> email_shape (trim [CHR ''a'', CHR ''@'', CHR 0x0A, CHR ''.'', CHR ''b''])"
proof -
  have t: "trim [CHR ''a'', CHR ''@'', CHR 0x0A, CHR ''.'', CHR ''b''] = [CHR ''a'', CHR ''@'', CHR 0x0A, CHR ''.'', CHR ''b'']"
    by (simp add: string_defs)
  have "[CHR ''a'', CHR ''@'', CHR 0x0A, CHR ''.'', CHR ''b''] = ''a'' @ ''@'' @ [CHR 0x0A] @ ''.'' @ ''b''"
    by simp
  then have s: "email_shape [CHR ''a'', CHR ''@'', CHR 0x0A, CHR ''.'', CHR ''b'']"
    unfolding email_shape_def
    by (intro exI [of _ "''a''"] exI [of _ "[CHR 0x0A]"] exI [of _ "''b''"]) simp
  have v: "validate_email (set_email [CHR ''a'', CHR ''@'', CHR 0x0A, CHR ''.'', CHR ''b'']) \<noteq> []"
    by (simp add: schema_defs string_defs)
  have h: "status (snd (post_contacts
        \<lparr>f_name = Some ''Ann'', f_email = Some [CHR ''a'', CHR ''@'', CHR 0x0A, CHR ''.'', CHR ''b''],
          f_phone = Some ''0123456789''\<rparr> 1 initial)) = 400"
    by (simp add: handler_defs schema_defs string_defs initial_def respond_def)
  from t s v h show ?thesis by simp
qed

text \<open>
  C7, amended. For every email that, trimmed, has no line feed and no carriage return,
  validation of the email fails if and only if the trimmed email is empty or does not
  have the full shape. When it fails, create answers 400, and so does update unless the
  id cannot be cast.
\<close>

theorem email_validation:
  assumes "CHR 0x0A \<notin> set (trim e)" and "CHR 0x0D \<notin> set (trim e)"
  shows "((validate_email (set_email e) \<noteq> []) = (trim e = [] \<or> \<not> email_shape (trim e)))
       \<and> (validate_email (set_email e) \<noteq> [] \<and> f_email b = Some e \<longrightarrow>
            status (snd (post_contacts b now st)) = 400
            \<and> (cast_ObjectId idp \<noteq> None \<longrightarrow> status (snd (put_contact idp b now st)) = 400))"
proof -
  have "(validate_email (set_email e) \<noteq> []) =
        (toLowerCase (trim e) = [] \<or> \<not> regexp_test False email_regexp (toLowerCase (trim e)))"
    by (simp add: validate_email_def set_email_eq)
  also have "\<dots> = (trim e = [] \<or> \<not> regexp_test False email_regexp (trim e))"
    by (simp add: email_regexp_toLowerCase) (simp add: toLowerCase_def)
  also have "\<dots> = (trim e = [] \<or> \<not> email_shape (trim e))"
    using assms by (simp add: email_regexp_shape)
  finally have 1: "(validate_email (set_email e) \<noteq> []) = (trim e = [] \<or> \<not> email_shape (trim e))" .
  show ?thesis
    using 1 email_error_post [of e b now st] email_error_put [of e b idp now st] by simp
qed

theorem email_validation_witness:
  "CHR 0x0A \<notin> set (trim '' Bob@X.io '') \<and> CHR 0x0D \<notin> set (trim '' Bob@X.io '')
   \<and> validate_email (set_email '' Bob@X.io '') = [] \<and> email_shape (trim '' Bob@X.io '')"
proof -
  have t: "trim '' Bob@X.io '' = ''Bob@X.io''"
    by (simp add: string_defs)
  have n: "CHR 0x0A \<notin> set (trim '' Bob@X.io '')" "CHR 0x0D \<notin> set (trim '' Bob@X.io '')"
    unfolding t by simp_all
  have v: "validate_email (set_email '' Bob@X.io '') = []"
    by (simp add: schema_defs string_defs)
  have "trim '' Bob@X.io '' \<noteq> []"
    unfolding t by simp
  then have "email_shape (trim '' Bob@X.io '')"
    using v email_validation [OF n] by simp
  with n v show ?thesis by simp
qed

end
